theory Spec2Isabelle
  imports Complex_Main
begin

section \<open>Values exchanged with the remote record store\<close>

datatype jsval = JNum int | JBool bool | JStr string

text \<open>
  A value thrown by an awaited call.  The handlers of \<^verbatim>\<open>lib/odoo/utils.ts\<close> read it with
  \<^verbatim>\<open>error instanceof Error ? error.message : 'Unknown error'\<close>, so an \<^verbatim>\<open>Error\<close> object
  (with its message) is kept apart from any other thrown value (a string, a number).
\<close>

datatype thrown = JsError string | NonError jsval

fun error_message :: "thrown \<Rightarrow> string" where
  "error_message (JsError m) = m"
| "error_message (NonError v) = ''Unknown error''"

text \<open>
  A many2one field as the code reads it: falsy (\<^verbatim>\<open>false\<close>, \<^verbatim>\<open>null\<close>, missing), the
  pair \<^verbatim>\<open>[id, name]\<close>, or a bare id.
\<close>

datatype many2one = Unset | Ref int string | RefId int

text \<open>
  \<^verbatim>\<open>x && (Array.isArray(x) ? x[0] : x)\<close>; the value is only ever tested with \<^verbatim>\<open>!\<close>, so a
  falsy outcome (also the number 0) is \<open>None\<close>.
\<close>

fun main_attachment :: "many2one \<Rightarrow> int option" where
  "main_attachment Unset = None"
| "main_attachment (Ref a n) = (if a = 0 then None else Some a)"
| "main_attachment (RefId a) = (if a = 0 then None else Some a)"

record move_row =
  row_id :: int
  message_main_attachment_id :: many2one

record attachment =
  att_id :: int
  att_name :: string
  att_mimetype :: string
  att_datas :: "string option"
  att_res_id :: "int option"

type_synonym values_map = "(string \<times> jsval) list"

text \<open>The untaxed amount of an invoice: missing, \<^verbatim>\<open>null\<close>, or a (finite) number.\<close>

datatype amount = Absent | Null | Num rat

record invoice =
  inv_id :: int
  amount_untaxed :: amount
  attachments :: "attachment list option"

record query =
  invoiceApprovalAlias :: "string option"
  limit :: "nat option"
  offset :: "nat option"
  includeAttachmentData :: bool

section \<open>The environment: the Odoo client and the clock\<close>

text \<open>
  \<^verbatim>\<open>odooApi\<close> (\<^verbatim>\<open>lib/odoo/api\<close>) is an opaque RPC client.  Each call the subsystem makes
  is a transition of an arbitrary remote state \<open>'s\<close> that either throws or returns; a
  \<^verbatim>\<open>searchRead\<close> that returns gives an array of rows:
  \<^item> \<open>searchRead_move i\<close>: \<^verbatim>\<open>searchRead('account.move', [["id","=",i]], {fields: ["id","message_main_attachment_id"]})\<close>;
  \<^item> \<open>searchRead_attachment i\<close>: \<^verbatim>\<open>searchRead('ir.attachment', [["res_model","=","account.move"],["res_id","=",i]], {fields, limit: 1})\<close>;
  \<^item> \<open>write_move ids vals\<close>: \<^verbatim>\<open>write('account.move', ids, vals)\<close>;
  \<^item> \<open>executeKw model method ids\<close>: \<^verbatim>\<open>executeKw(model, method, [ids])\<close>;
  \<^item> \<open>searchRead_invoices q\<close>: the list fetch of \<^verbatim>\<open>getAllInvoices\<close>, with the domain and the
    search options the source builds from the alias, limit and offset of \<open>q\<close>;
  \<^item> \<open>searchRead_attachments_in ids withData\<close>: the attachment fetch of \<^verbatim>\<open>getAllInvoices\<close>
    (\<^verbatim>\<open>["res_id","in",ids]\<close>, \<^verbatim>\<open>limit: 0\<close>, with \<^verbatim>\<open>datas\<close> among the fields iff \<open>withData\<close>);
  \<^item> \<open>Date_now\<close>, \<open>Date_toISOString\<close>: the clock (\<^verbatim>\<open>Date.now()\<close>,
    \<^verbatim>\<open>new Date().toISOString()\<close>), read off the same state.
\<close>

record 's env =
  searchRead_move :: "int \<Rightarrow> 's \<Rightarrow> (thrown + move_row list) \<times> 's"
  searchRead_attachment :: "int \<Rightarrow> 's \<Rightarrow> (thrown + attachment list) \<times> 's"
  write_move :: "int list \<Rightarrow> values_map \<Rightarrow> 's \<Rightarrow> (thrown + unit) \<times> 's"
  executeKw :: "string \<Rightarrow> string \<Rightarrow> int list \<Rightarrow> 's \<Rightarrow> (thrown + unit) \<times> 's"
  searchRead_invoices :: "query \<Rightarrow> 's \<Rightarrow> (thrown + invoice list) \<times> 's"
  searchRead_attachments_in :: "int list \<Rightarrow> bool \<Rightarrow> 's \<Rightarrow> (thrown + attachment list) \<times> 's"
  Date_now :: "'s \<Rightarrow> int"
  Date_toISOString :: "'s \<Rightarrow> string"

section \<open>Results of a batch and the event log\<close>

datatype linkage = no_attachment | linked | unknown

record item =
  invoiceId :: int
  success :: bool
  error :: "string option"
  attachmentLinkage :: linkage

record batch_result =
  totalInvoices :: nat
  successful :: nat
  failed :: nat
  duration :: int
  results :: "item list"
  completedAt :: string

datatype rpc =
    SearchReadMove int
  | SearchReadAttachment int
  | Write "int list" values_map
  | ExecuteKw string string "int list"
  | SearchReadInvoices query
  | SearchReadAttachmentsIn "int list" bool

text \<open>
  The calls made on \<^verbatim>\<open>ocrNotificationService\<close>, the notification store.  The service is
  not among the sources: its calls are recorded with their arguments, and return.
\<close>

datatype store_call =
    StartRefresh "int list"
  | UpdateProgress nat nat
  | CompleteRefresh batch_result
  | FailRefresh string

text \<open>
  Every remote call is logged with its outcome (\<open>True\<close>: it returned, \<open>False\<close>: it threw),
  every call on the notification store with its arguments, oldest first.
\<close>

datatype event = Rpc rpc bool | Store store_call

record 's sys =
  remote :: "'s"
  events :: "event list"

definition returned :: "thrown + 'a \<Rightarrow> bool" where
  "returned r = (case r of Inl _ \<Rightarrow> False | Inr _ \<Rightarrow> True)"

definition call :: "rpc \<Rightarrow> ('s \<Rightarrow> (thrown + 'a) \<times> 's) \<Rightarrow> 's sys \<Rightarrow> (thrown + 'a) \<times> 's sys" where
  "call c f st =
     (case f (remote st) of
        (r, s') \<Rightarrow> (r, \<lparr>remote = s', events = events st @ [Rpc c (returned r)]\<rparr>))"

definition notify :: "store_call \<Rightarrow> 's sys \<Rightarrow> 's sys" where
  "notify c st = st\<lparr>events := events st @ [Store c]\<rparr>"

section \<open>Linkage repair and error-state reset\<close>

definition reset_values :: values_map where
  "reset_values =
     [(''extract_state'', JStr ''no_extract_requested''),
      (''extract_status'', JBool False),
      (''extract_error_message'', JBool False)]"

definition linkage_values :: "int \<Rightarrow> values_map" where
  "linkage_values attachmentId = [(''message_main_attachment_id'', JNum attachmentId)]"

definition resetExtractErrorState :: "'s env \<Rightarrow> int \<Rightarrow> 's sys \<Rightarrow> (thrown + unit) \<times> 's sys" where
  "resetExtractErrorState api iid st =
     call (Write [iid] reset_values) (write_move api [iid] reset_values) st"

text \<open>The \<^verbatim>\<open>try\<close> block of \<^verbatim>\<open>ensureInvoiceAttachmentLinkage\<close>: \<open>Inl\<close> is a throw out of it.\<close>

definition ensure_try :: "'s env \<Rightarrow> int \<Rightarrow> 's sys \<Rightarrow> (thrown + bool) \<times> 's sys" where
  "ensure_try api iid st =
     (case call (SearchReadMove iid) (searchRead_move api iid) st of
        (Inl e, st1) \<Rightarrow> (Inl e, st1)
      | (Inr [], st1) \<Rightarrow> (Inr False, st1)
      | (Inr (row # _), st1) \<Rightarrow>
          (case main_attachment (message_main_attachment_id row) of
             Some _ \<Rightarrow>
               (case resetExtractErrorState api iid st1 of
                  (Inl e, st4) \<Rightarrow> (Inl e, st4)
                | (Inr _, st4) \<Rightarrow> (Inr True, st4))
           | None \<Rightarrow>
               (case call (SearchReadAttachment iid) (searchRead_attachment api iid) st1 of
                  (Inl e, st2) \<Rightarrow> (Inl e, st2)
                | (Inr [], st2) \<Rightarrow> (Inr False, st2)
                | (Inr (a # _), st2) \<Rightarrow>
                    (case call (Write [iid] (linkage_values (att_id a)))
                               (write_move api [iid] (linkage_values (att_id a))) st2 of
                       (Inl e, st3) \<Rightarrow> (Inl e, st3)
                     | (Inr _, st3) \<Rightarrow>
                         (case resetExtractErrorState api iid st3 of
                            (Inl e, st4) \<Rightarrow> (Inl e, st4)
                          | (Inr _, st4) \<Rightarrow> (Inr True, st4))))))"

text \<open>The \<^verbatim>\<open>catch\<close> around it returns \<^verbatim>\<open>false\<close> for whatever was thrown.\<close>

definition ensureInvoiceAttachmentLinkage :: "'s env \<Rightarrow> int \<Rightarrow> 's sys \<Rightarrow> bool \<times> 's sys" where
  "ensureInvoiceAttachmentLinkage api iid st =
     (case ensure_try api iid st of
        (Inl e, st') \<Rightarrow> (False, st')
      | (Inr b, st') \<Rightarrow> (b, st'))"

section \<open>The OCR refresh orchestrator\<close>

definition skipped_item :: "int \<Rightarrow> item" where
  "skipped_item i =
     \<lparr>invoiceId = i, success = False, error = Some ''No attachment found to process'',
      attachmentLinkage = no_attachment\<rparr>"

definition refreshed_item :: "int \<Rightarrow> item" where
  "refreshed_item i =
     \<lparr>invoiceId = i, success = True, error = None, attachmentLinkage = linked\<rparr>"

definition failed_item :: "int \<Rightarrow> thrown \<Rightarrow> item" where
  "failed_item i e =
     \<lparr>invoiceId = i, success = False, error = Some (error_message e),
      attachmentLinkage = unknown\<rparr>"

text \<open>
  One pass of the \<^verbatim>\<open>for\<close> loop of \<^verbatim>\<open>refreshOcrDataForInvoices\<close>, for index \<open>i\<close> of \<open>n\<close>
  ids: the item pushed on \<^verbatim>\<open>results\<close> and the state after \<^verbatim>\<open>updateProgress\<close>.
\<close>

definition refresh_one :: "'s env \<Rightarrow> nat \<Rightarrow> nat \<Rightarrow> int \<Rightarrow> 's sys \<Rightarrow> item \<times> 's sys" where
  "refresh_one api n i iid st =
     (case ensureInvoiceAttachmentLinkage api iid st of
        (False, st1) \<Rightarrow> (skipped_item iid, notify (UpdateProgress (i + 1) n) st1)
      | (True, st1) \<Rightarrow>
          (case call (ExecuteKw ''account.move'' ''action_reload_ai_data'' [iid])
                     (executeKw api ''account.move'' ''action_reload_ai_data'' [iid]) st1 of
             (Inr _, st2) \<Rightarrow> (refreshed_item iid, notify (UpdateProgress (i + 1) n) st2)
           | (Inl e, st2) \<Rightarrow> (failed_item iid e, notify (UpdateProgress (i + 1) n) st2)))"

fun refresh_loop :: "'s env \<Rightarrow> nat \<Rightarrow> nat \<Rightarrow> int list \<Rightarrow> item list \<Rightarrow> 's sys \<Rightarrow> item list \<times> 's sys" where
  "refresh_loop api n i [] rs st = (rs, st)"
| "refresh_loop api n i (iid # ids) rs st =
     (case refresh_one api n i iid st of
        (r, st') \<Rightarrow> refresh_loop api n (i + 1) ids (rs @ [r]) st')"

definition refreshOcrDataForInvoices :: "'s env \<Rightarrow> int list \<Rightarrow> 's sys \<Rightarrow> batch_result \<times> 's sys" where
  "refreshOcrDataForInvoices api invoiceIds st =
     (let startTime = Date_now api (remote st) in
      case refresh_loop api (length invoiceIds) 0 invoiceIds [] st of
        (rs, st') \<Rightarrow>
          (let endTime = Date_now api (remote st') in
           (\<lparr>totalInvoices = length invoiceIds,
             successful = length (filter (\<lambda>r. success r) rs),
             failed = length (filter (\<lambda>r. \<not> success r) rs),
             duration = endTime - startTime,
             results = rs,
             completedAt = Date_toISOString api (remote st')\<rparr>, st')))"

text \<open>
  What happens to each id of a run, read off the calls themselves: the linkage step returns
  false, or the extraction call returns, or it throws.  Each pass starts in the state the
  pass before it left.
\<close>

datatype outcome = NoAttachment | Extracted | ExtractionThrew thrown



section \<open>The list fetch that starts a batch\<close>

text \<open>
  Modelled from the spec: \<^verbatim>\<open>isZeroValueInvoice\<close> (\<^verbatim>\<open>lib/utils/invoiceUtils\<close>) is imported by
  \<^verbatim>\<open>lib/odoo/utils.ts\<close> but is not among the sources.  The spec's Zero-Value Detector:
  true iff the untaxed-amount field is absent, null, or exactly zero.
\<close>

definition isZeroValueInvoice :: "invoice \<Rightarrow> bool" where
  "isZeroValueInvoice iv =
     (amount_untaxed iv = Absent \<or> amount_untaxed iv = Null \<or> amount_untaxed iv = Num 0)"

text \<open>
  The two zero-value tests the sources do spell out: the one of \<^verbatim>\<open>needsOcrProcessing\<close> in
  the polling hook (\<^verbatim>\<open>=== null || === undefined || === 0\<close>) and \<^verbatim>\<open>hasZeroValue\<close> of
  \<^verbatim>\<open>getInvoice\<close> (\<^verbatim>\<open>!amount_untaxed || amount_untaxed === 0\<close>).
\<close>

definition needs_ocr :: "invoice \<Rightarrow> bool" where
  "needs_ocr iv =
     (amount_untaxed iv = Null \<or> amount_untaxed iv = Absent \<or> amount_untaxed iv = Num 0)"

fun falsy_amount :: "amount \<Rightarrow> bool" where
  "falsy_amount Absent = True"
| "falsy_amount Null = True"
| "falsy_amount (Num x) = (x = 0)"

definition hasZeroValue :: "invoice \<Rightarrow> bool" where
  "hasZeroValue iv = (falsy_amount (amount_untaxed iv) \<or> amount_untaxed iv = Num 0)"

text \<open>\<^verbatim>\<open>inv.attachments && inv.attachments.length > 0\<close>\<close>

definition has_attachments :: "invoice \<Rightarrow> bool" where
  "has_attachments iv = (case attachments iv of None \<Rightarrow> False | Some as \<Rightarrow> length as > 0)"

text \<open>
  The grouping loop over \<^verbatim>\<open>allAttachments\<close>: an attachment whose \<^verbatim>\<open>res_id\<close> is falsy is
  passed over, any other is appended to the entry of its invoice.
\<close>

definition pushed :: "bool \<Rightarrow> attachment \<Rightarrow> attachment" where
  "pushed withData a =
     \<lparr>att_id = att_id a, att_name = att_name a, att_mimetype = att_mimetype a,
      att_datas = (if withData then att_datas a else None), att_res_id = None\<rparr>"

definition group_step :: "bool \<Rightarrow> (int \<rightharpoonup> attachment list) \<Rightarrow> attachment \<Rightarrow> (int \<rightharpoonup> attachment list)" where
  "group_step withData m a =
     (case att_res_id a of
        None \<Rightarrow> m
      | Some r \<Rightarrow>
          if r = 0 then m
          else m(r \<mapsto> (case m r of None \<Rightarrow> [] | Some current \<Rightarrow> current) @ [pushed withData a]))"

definition attachmentsByInvoice :: "bool \<Rightarrow> attachment list \<Rightarrow> (int \<rightharpoonup> attachment list)" where
  "attachmentsByInvoice withData allAttachments = foldl (group_step withData) Map.empty allAttachments"

definition with_attachments :: "(int \<rightharpoonup> attachment list) \<Rightarrow> invoice \<Rightarrow> invoice" where
  "with_attachments m iv =
     iv\<lparr>attachments := Some (case m (inv_id iv) of None \<Rightarrow> [] | Some as \<Rightarrow> as)\<rparr>"

definition fetch_attachments :: "'s env \<Rightarrow> query \<Rightarrow> invoice list \<Rightarrow> 's sys \<Rightarrow> (thrown + invoice list) \<times> 's sys" where
  "fetch_attachments api q invs st =
     (if length invs > 0 then
        (case call (SearchReadAttachmentsIn (map inv_id invs) (includeAttachmentData q))
                   (searchRead_attachments_in api (map inv_id invs) (includeAttachmentData q)) st of
           (Inl e, st') \<Rightarrow> (Inl e, st')
         | (Inr allAttachments, st') \<Rightarrow>
             (Inr (map (with_attachments (attachmentsByInvoice (includeAttachmentData q) allAttachments)) invs),
              st'))
      else (Inr invs, st))"

section \<open>The batch when the notification service may throw\<close>

text \<open>
  \<^verbatim>\<open>ocrNotificationService\<close> is not among the sources, so nothing says that its calls return.
  Here the service is any transition of the same state that either throws or returns; a call
  is logged when it is made, whatever its outcome.  The orchestrator above is the case of a
  service whose calls return.
\<close>

type_synonym 's service = "store_call \<Rightarrow> 's \<Rightarrow> (thrown + unit) \<times> 's"

definition invoke :: "'s service \<Rightarrow> store_call \<Rightarrow> 's sys \<Rightarrow> (thrown + unit) \<times> 's sys" where
  "invoke svc c st =
     (case svc c (remote st) of
        (r, s') \<Rightarrow> (r, \<lparr>remote = s', events = events st @ [Store c]\<rparr>))"

text \<open>
  One pass of the loop: \<open>Inr\<close> with the items it pushed, or \<open>Inl\<close> when a throw leaves the loop.
  In the skip branch \<^verbatim>\<open>updateProgress\<close> is called inside the \<^verbatim>\<open>try\<close>: a throw there is
  caught, the \<^verbatim>\<open>catch\<close> pushes a second item for the id, and control reaches the
  \<^verbatim>\<open>updateProgress\<close> after the \<^verbatim>\<open>try/catch\<close>.  That call is outside every \<^verbatim>\<open>try\<close>: a throw
  of it rejects the promise of \<^verbatim>\<open>refreshOcrDataForInvoices\<close>.
\<close>

definition refresh_one_svc ::
    "'s env \<Rightarrow> 's service \<Rightarrow> nat \<Rightarrow> nat \<Rightarrow> int \<Rightarrow> 's sys \<Rightarrow> (thrown + item list) \<times> 's sys" where
  "refresh_one_svc api svc n i iid st =
     (case ensureInvoiceAttachmentLinkage api iid st of
        (False, st1) \<Rightarrow>
          (case invoke svc (UpdateProgress (i + 1) n) st1 of
             (Inr u, st2) \<Rightarrow> (Inr [skipped_item iid], st2)
           | (Inl e, st2) \<Rightarrow>
               (case invoke svc (UpdateProgress (i + 1) n) st2 of
                  (Inr u, st3) \<Rightarrow> (Inr [skipped_item iid, failed_item iid e], st3)
                | (Inl e', st3) \<Rightarrow> (Inl e', st3)))
      | (True, st1) \<Rightarrow>
          (case call (ExecuteKw ''account.move'' ''action_reload_ai_data'' [iid])
                     (executeKw api ''account.move'' ''action_reload_ai_data'' [iid]) st1 of
             (r, st2) \<Rightarrow>
               (case invoke svc (UpdateProgress (i + 1) n) st2 of
                  (Inr u, st3) \<Rightarrow>
                    (Inr [case r of Inr v \<Rightarrow> refreshed_item iid | Inl e \<Rightarrow> failed_item iid e], st3)
                | (Inl e', st3) \<Rightarrow> (Inl e', st3))))"

fun refresh_loop_svc ::
    "'s env \<Rightarrow> 's service \<Rightarrow> nat \<Rightarrow> nat \<Rightarrow> int list \<Rightarrow> item list \<Rightarrow> 's sys \<Rightarrow> (thrown + item list) \<times> 's sys" where
  "refresh_loop_svc api svc n i [] rs st = (Inr rs, st)"
| "refresh_loop_svc api svc n i (iid # ids) rs st =
     (case refresh_one_svc api svc n i iid st of
        (Inl e, st') \<Rightarrow> (Inl e, st')
      | (Inr pushed_items, st') \<Rightarrow> refresh_loop_svc api svc n (i + 1) ids (rs @ pushed_items) st')"

definition refreshOcrDataForInvoices_svc ::
    "'s env \<Rightarrow> 's service \<Rightarrow> int list \<Rightarrow> 's sys \<Rightarrow> (thrown + batch_result) \<times> 's sys" where
  "refreshOcrDataForInvoices_svc api svc invoiceIds st =
     (let startTime = Date_now api (remote st) in
      case refresh_loop_svc api svc (length invoiceIds) 0 invoiceIds [] st of
        (Inl e, st') \<Rightarrow> (Inl e, st')
      | (Inr rs, st') \<Rightarrow>
          (let endTime = Date_now api (remote st') in
           (Inr \<lparr>totalInvoices = length invoiceIds,
                 successful = length (filter (\<lambda>r. success r) rs),
                 failed = length (filter (\<lambda>r. \<not> success r) rs),
                 duration = endTime - startTime,
                 results = rs,
                 completedAt = Date_toISOString api (remote st')\<rparr>, st')))"

text \<open>
  \<^verbatim>\<open>promise.then(result => completeRefresh(result)).catch(error => failRefresh(...))\<close>, for
  either way the promise settles.  The \<^verbatim>\<open>catch\<close> handler also runs when the \<^verbatim>\<open>then\<close> handler
  throws, that is when \<^verbatim>\<open>completeRefresh\<close> does.  \<open>Inl\<close> is a throw of \<^verbatim>\<open>failRefresh\<close> itself,
  which nothing handles.
\<close>

definition settle :: "'s service \<Rightarrow> thrown + batch_result \<Rightarrow> 's sys \<Rightarrow> (thrown + unit) \<times> 's sys" where
  "settle svc outcome st =
     (case outcome of
        Inr result \<Rightarrow>
          (case invoke svc (CompleteRefresh result) st of
             (Inr u, st1) \<Rightarrow> (Inr (), st1)
           | (Inl e, st1) \<Rightarrow> invoke svc (FailRefresh (error_message e)) st1)
      | Inl e \<Rightarrow> invoke svc (FailRefresh (error_message e)) st)"

text \<open>The detached promise chain of a batch: the run, then its settling.\<close>

definition background_chain ::
    "'s env \<Rightarrow> 's service \<Rightarrow> int list \<Rightarrow> 's sys \<Rightarrow> (thrown + unit) \<times> 's sys" where
  "background_chain api svc ids st =
     (case refreshOcrDataForInvoices_svc api svc ids st of
        (outcome, st') \<Rightarrow> settle svc outcome st')"

text \<open>
  \<^verbatim>\<open>startRefresh\<close> followed by the detached chain.  \<^verbatim>\<open>startRefresh\<close> is called synchronously: a
  throw of it (\<open>Inl\<close>) leaves \<^verbatim>\<open>getAllInvoices\<close> before anything is started.  The chain is not
  awaited by the caller; here its effects are appended in the order in which they happen.
\<close>

definition start_background ::
    "'s env \<Rightarrow> 's service \<Rightarrow> int list \<Rightarrow> 's sys \<Rightarrow> (thrown + unit) \<times> 's sys" where
  "start_background api svc ids st =
     (case invoke svc (StartRefresh ids) st of
        (Inl e, st1) \<Rightarrow> (Inl e, st1)
      | (Inr u, st1) \<Rightarrow> (Inr (), snd (background_chain api svc ids st1)))"

record all_invoices =
  invoices :: "invoice list"
  ocrRefreshPerformed :: bool
  zeroValueInvoicesRefreshed :: nat
  zeroValueInvoiceIds :: "int list"

definition getAllInvoices ::
    "'s env \<Rightarrow> 's service \<Rightarrow> query \<Rightarrow> bool \<Rightarrow> 's sys \<Rightarrow> (thrown + all_invoices) \<times> 's sys" where
  "getAllInvoices api svc q skipOcrRefresh st =
     (case call (SearchReadInvoices q) (searchRead_invoices api q) st of
        (Inl e, st1) \<Rightarrow> (Inl e, st1)
      | (Inr fetched, st1) \<Rightarrow>
          (case fetch_attachments api q fetched st1 of
             (Inl e, st2) \<Rightarrow> (Inl e, st2)
           | (Inr invs, st2) \<Rightarrow>
               (let zeroValueInvoices = filter isZeroValueInvoice invs;
                    started =
                      (if \<not> skipOcrRefresh \<and> length zeroValueInvoices > 0 then
                         (let invoicesWithAttachments = filter has_attachments zeroValueInvoices in
                          if length invoicesWithAttachments > 0
                          then start_background api svc (map inv_id invoicesWithAttachments) st2
                          else (Inr (), st2))
                       else (Inr (), st2));
                    processedForOcr =
                      (if \<not> skipOcrRefresh \<and> length zeroValueInvoices > 0
                       then filter has_attachments zeroValueInvoices else [])
                in case started of
                     (Inl e, st3) \<Rightarrow> (Inl e, st3)
                   | (Inr u, st3) \<Rightarrow>
                       (Inr \<lparr>invoices = invs,
                             ocrRefreshPerformed = (\<not> skipOcrRefresh \<and> length processedForOcr > 0),
                             zeroValueInvoicesRefreshed = length processedForOcr,
                             zeroValueInvoiceIds = map inv_id processedForOcr\<rparr>, st3))))"

text \<open>
  The candidate ids in the spec's words, read off what the remote store answered: the ids of
  the fetched zero-value invoices for which the attachment fetch returned at least one
  attachment (an attachment belongs to the invoice named by its \<^verbatim>\<open>res_id\<close>; a \<^verbatim>\<open>res_id\<close> of 0
  counts as missing), in the order of the list.
\<close>

definition remote_candidates :: "invoice list \<Rightarrow> attachment list \<Rightarrow> int list" where
  "remote_candidates fetched atts =
     map inv_id
       (filter (\<lambda>iv. isZeroValueInvoice iv \<and> inv_id iv \<noteq> 0 \<and>
                      (\<exists>a \<in> set atts. att_res_id a = Some (inv_id iv))) fetched)"

section \<open>Reading the event log\<close>

fun store_calls :: "event list \<Rightarrow> store_call list" where
  "store_calls [] = []"
| "store_calls (Rpc c ok # es) = store_calls es"
| "store_calls (Store c # es) = c # store_calls es"

fun rpc_calls :: "event list \<Rightarrow> rpc list" where
  "rpc_calls [] = []"
| "rpc_calls (Rpc c ok # es) = c # rpc_calls es"
| "rpc_calls (Store c # es) = rpc_calls es"



section \<open>The polling hook\<close>

record last_result =
  lr_totalInvoices :: int
  lr_successful :: int
  lr_failed :: int
  lr_duration :: int
  lr_completedAt :: string

record ('t, 'r) ocr_status =
  isRunning :: bool
  startTime :: "'t option"
  progress :: "(nat \<times> nat) option"
  lastResult :: "'r option"
  lastError :: "string option"

datatype invoices_arg = NoInvoices | OneInvoice invoice | ManyInvoices "invoice list"

fun needsOcrProcessing :: "bool \<Rightarrow> invoices_arg \<Rightarrow> bool" where
  "needsOcrProcessing enabled NoInvoices = False"
| "needsOcrProcessing enabled (OneInvoice iv) = (enabled \<and> needs_ocr iv)"
| "needsOcrProcessing enabled (ManyInvoices ivs) = (enabled \<and> (\<exists>iv \<in> set ivs. needs_ocr iv))"

text \<open>The notification kinds of the toast library, and one raised toast.\<close>

datatype toast_kind = success_toast | warning_toast | error_toast

record toast =
  kind :: toast_kind
  title :: string
  description :: string
  shown_ms :: nat

text \<open>Decimal digits of an integer.\<close>

fun show_nat :: "nat \<Rightarrow> string" where
  "show_nat n =
     (if n < 10 then [''0123456789'' ! n]
      else show_nat (n div 10) @ [''0123456789'' ! (n mod 10)])"

declare show_nat.simps [simp del]

text \<open>
  An integer as a template literal interpolates it: its decimal digits when its magnitude is
  below \<open>10\<^sup>2\<^sup>1\<close>.  From there on JavaScript prints an exponent form, which is not modelled:
  it is whatever \<open>big\<close> gives.
\<close>

definition number_string :: "(int \<Rightarrow> string) \<Rightarrow> int \<Rightarrow> string" where
  "number_string big i =
     (if \<bar>i\<bar> < 10 ^ 21 then
        (if i < 0 then ''-'' @ show_nat (nat (- i)) else show_nat (nat i))
      else big i)"

text \<open>\<^verbatim>\<open>Math.round(duration / 1000)\<close>, halves rounding up.\<close>

definition round_seconds :: "int \<Rightarrow> int" where
  "round_seconds d = (d + 500) div 1000"

text \<open>The toast of the \<^verbatim>\<open>lastResult\<close> branch of \<^verbatim>\<open>pollStatus\<close>.\<close>

definition result_toast :: "(int \<Rightarrow> string) \<Rightarrow> last_result \<Rightarrow> toast" where
  "result_toast big r =
     (if lr_successful r = lr_totalInvoices r then
        \<lparr>kind = success_toast, title = ''OCR Refresh Complete'',
         description = ''Successfully refreshed '' @ number_string big (lr_successful r) @
           '' invoice'' @ (if lr_successful r \<noteq> 1 then ''s'' else []) @ '' in '' @
           number_string big (round_seconds (lr_duration r)) @ ''s'',
         shown_ms = 5000\<rparr>
      else if lr_successful r > 0 then
        \<lparr>kind = success_toast, title = ''OCR Refresh Partially Complete'',
         description = ''Refreshed '' @ number_string big (lr_successful r) @ ''/'' @
           number_string big (lr_totalInvoices r) @ '' invoices successfully. '' @
           number_string big (lr_failed r) @ '' failed.'',
         shown_ms = 7000\<rparr>
      else
        \<lparr>kind = error_toast, title = ''OCR Refresh Failed'',
         description = ''Failed to refresh '' @ number_string big (lr_totalInvoices r) @
           '' invoice'' @ (if lr_totalInvoices r \<noteq> 1 then ''s'' else []) @
           ''. Please try again.'',
         shown_ms = 7000\<rparr>)"

fun includes_str :: "string \<Rightarrow> string \<Rightarrow> bool" where
  "includes_str [] sub = (sub = [])"
| "includes_str (c # cs) sub = (take (length sub) (c # cs) = sub \<or> includes_str cs sub)"

text \<open>The toast of the \<^verbatim>\<open>lastError\<close> branch: title and description by the first matching test.\<close>

definition error_toast_for :: "string \<Rightarrow> toast" where
  "error_toast_for e =
     (let (t, d) =
        (if includes_str e ''Network error'' \<or> includes_str e ''fetch'' then
           (''Network Connection Error'',
            ''Unable to connect to the OCR service. Please check your internet connection and try again.'')
         else if includes_str e ''Authentication error'' \<or> includes_str e ''401'' then
           (''Authentication Error'',
            ''Your session has expired. Please refresh the page and try again.'')
         else if includes_str e ''Permission denied'' \<or> includes_str e ''403'' then
           (''Permission Denied'',
            ''You do not have permission to perform OCR refresh operations.'')
         else if includes_str e ''Service not found'' \<or> includes_str e ''404'' then
           (''Service Unavailable'',
            ''The OCR service is not available. Please contact support.'')
         else if includes_str e ''Server error'' \<or> includes_str e ''500'' then
           (''Server Error'',
            ''The OCR service encountered an internal error. Please try again later.'')
         else if includes_str e ''Service unavailable'' \<or> includes_str e ''502'' \<or> includes_str e ''503''
                 \<or> includes_str e ''504'' then
           (''Service Temporarily Unavailable'',
            ''The OCR service is temporarily down. Please try again in a few minutes.'')
         else if includes_str e ''timeout'' then
           (''Request Timeout'',
            ''The OCR refresh operation took too long. Please try again.'')
         else if includes_str e ''Odoo API'' then
           (''Odoo Service Error'',
            ''Unable to communicate with the Odoo system. Please try again later.'')
         else (''OCR Refresh Error'', e))
      in \<lparr>kind = error_toast, title = t, description = d, shown_ms = 7000\<rparr>)"

datatype response = FetchThrew | NotOk | Ok "(string, last_result) ocr_status"

record hook_state =
  status :: "(string, last_result) ocr_status"
  lastProcessedResult :: "string option"

text \<open>
  One run of \<^verbatim>\<open>pollStatus\<close>: the toasts it raises, oldest first, and the hook state after its
  \<^verbatim>\<open>setStatus\<close> and \<^verbatim>\<open>setLastProcessedResult\<close> calls.  Both tests read the
  \<^verbatim>\<open>lastProcessedResult\<close> of the render that created the closure; an empty \<^verbatim>\<open>lastError\<close>
  is falsy.
\<close>

definition pollStatus :: "(int \<Rightarrow> string) \<Rightarrow> response \<Rightarrow> hook_state \<Rightarrow> toast list \<times> hook_state" where
  "pollStatus big resp h =
     (case resp of
        FetchThrew \<Rightarrow> ([], h)
      | NotOk \<Rightarrow> ([], h)
      | Ok newStatus \<Rightarrow>
          (let h1 = h\<lparr>status := newStatus\<rparr>;
               (ts2, h2) =
                 (case lastResult newStatus of
                    Some r \<Rightarrow>
                      if Some (lr_completedAt r) \<noteq> lastProcessedResult h
                      then ([result_toast big r], h1\<lparr>lastProcessedResult := Some (lr_completedAt r)\<rparr>)
                      else ([], h1)
                  | None \<Rightarrow> ([], h1));
               (ts3, h3) =
                 (case lastError newStatus of
                    Some e \<Rightarrow>
                      if e \<noteq> [] \<and> Some e \<noteq> lastProcessedResult h
                      then ([error_toast_for e], h2\<lparr>lastProcessedResult := Some e\<rparr>)
                      else ([], h2)
                  | None \<Rightarrow> ([], h2))
           in (ts2 @ ts3, h3)))"

section \<open>The notification store\<close>

text \<open>
  Modelled from the spec: \<^verbatim>\<open>ocrNotificationService\<close> (\<^verbatim>\<open>lib/services/ocrNotificationService\<close>)
  is called by \<^verbatim>\<open>lib/odoo/utils.ts\<close> but is not among the sources.  The spec's Refresh
  Notification Store: \<^verbatim>\<open>startRefresh\<close> enters \<^verbatim>\<open>Running\<close>, records the start time and resets
  progress to \<open>(0, size of ids)\<close>, leaving the last result and error in place;
  \<^verbatim>\<open>updateProgress\<close>, \<^verbatim>\<open>completeRefresh\<close> and \<^verbatim>\<open>failRefresh\<close> are valid only while
  \<^verbatim>\<open>Running\<close> (\<open>None\<close> otherwise); the terminal calls leave \<^verbatim>\<open>Running\<close>, clear the progress
  and store the result or the message, each clearing the other; \<^verbatim>\<open>getSnapshot\<close> is a copy.
\<close>

type_synonym store = "(int, batch_result) ocr_status"

definition initial_store :: store where
  "initial_store =
     \<lparr>isRunning = False, startTime = None, progress = None, lastResult = None, lastError = None\<rparr>"

definition startRefresh :: "int list \<Rightarrow> int \<Rightarrow> store \<Rightarrow> store option" where
  "startRefresh ids now s =
     Some (s\<lparr>isRunning := True, startTime := Some now, progress := Some (0, length ids)\<rparr>)"

definition updateProgress :: "nat \<Rightarrow> nat \<Rightarrow> store \<Rightarrow> store option" where
  "updateProgress c t s = (if isRunning s then Some (s\<lparr>progress := Some (c, t)\<rparr>) else None)"

definition completeRefresh :: "batch_result \<Rightarrow> store \<Rightarrow> store option" where
  "completeRefresh r s =
     (if isRunning s
      then Some (s\<lparr>isRunning := False, progress := None, lastResult := Some r, lastError := None\<rparr>)
      else None)"

definition failRefresh :: "string \<Rightarrow> store \<Rightarrow> store option" where
  "failRefresh m s =
     (if isRunning s
      then Some (s\<lparr>isRunning := False, progress := None, lastResult := None, lastError := Some m\<rparr>)
      else None)"

definition getSnapshot :: "store \<Rightarrow> store" where
  "getSnapshot s = s"

datatype store_op =
  Start "int list" int | Progress nat nat | Complete batch_result | Fail string | Snapshot

fun store_step :: "store_op \<Rightarrow> store \<Rightarrow> store option" where
  "store_step (Start ids now) s = startRefresh ids now s"
| "store_step (Progress c t) s = updateProgress c t s"
| "store_step (Complete r) s = completeRefresh r s"
| "store_step (Fail m) s = failRefresh m s"
| "store_step Snapshot s = Some (getSnapshot s)"

fun store_run :: "store_op list \<Rightarrow> store \<Rightarrow> store option" where
  "store_run [] s = Some s"
| "store_run (x # xs) s = (case store_step x s of None \<Rightarrow> None | Some s' \<Rightarrow> store_run xs s')"

fun is_start :: "store_op \<Rightarrow> bool" where
  "is_start (Start ids now) = True"
| "is_start _ = False"

fun is_terminal_op :: "store_op \<Rightarrow> bool" where
  "is_terminal_op (Complete r) = True"
| "is_terminal_op (Fail m) = True"
| "is_terminal_op _ = False"

section \<open>A remote store for the concrete runs\<close>

text \<open>
  A small remote store, used where a concrete run is evaluated.  Its state is a clock that
  every call advances by 100 ms.  Invoice 1 has neither a linked nor any attachment, invoice 2
  has its main attachment linked, invoice 3 has one unlinked attachment and its extraction
  call throws \<^verbatim>\<open>rate limited\<close>, reading invoice 4 throws, invoice 5 does not exist.  The
  list fetch returns invoices 1, 2, 3 (zero-valued) and 6 (amount 12.5); 2, 3 and 6 have attachments.
\<close>

definition pdf :: "int \<Rightarrow> int option \<Rightarrow> attachment" where
  "pdf a r = \<lparr>att_id = a, att_name = ''scan.pdf'', att_mimetype = ''application/pdf'',
              att_datas = None, att_res_id = r\<rparr>"

definition scenario :: "nat env" where
  "scenario =
     \<lparr>searchRead_move = (\<lambda>i s.
        (if i = 4 then Inl (JsError ''connection reset'')
         else if i = 5 then Inr []
         else Inr [\<lparr>row_id = i,
                    message_main_attachment_id = (if i = 2 then Ref 20 ''bill.pdf'' else Unset)\<rparr>],
         s + 100)),
      searchRead_attachment = (\<lambda>i s. (Inr (if i = 3 then [pdf 30 None] else []), s + 100)),
      write_move = (\<lambda>ids vals s. (Inr (), s + 100)),
      executeKw = (\<lambda>m f ids s.
        (if ids = [3] then Inl (JsError ''rate limited'') else Inr (), s + 100)),
      searchRead_invoices = (\<lambda>q s.
        (Inr [\<lparr>inv_id = 1, amount_untaxed = Num 0, attachments = None\<rparr>,
              \<lparr>inv_id = 2, amount_untaxed = Null, attachments = None\<rparr>,
              \<lparr>inv_id = 3, amount_untaxed = Absent, attachments = None\<rparr>,
              \<lparr>inv_id = 6, amount_untaxed = Num (25 / 2), attachments = None\<rparr>], s + 100)),
      searchRead_attachments_in = (\<lambda>ids withData s.
        (Inr [pdf 20 (Some 2), pdf 30 (Some 3), pdf 60 (Some 6), pdf 70 None], s + 100)),
      Date_now = (\<lambda>s. int s),
      Date_toISOString = (\<lambda>s. show_nat s)\<rparr>"

definition boot :: "nat sys" where
  "boot = \<lparr>remote = 0, events = []\<rparr>"

text \<open>
  A list request for the first page, a terminal snapshot of a batch of two with one success as
  the status endpoint serves it, and the state of a hook that has not surfaced anything yet.
\<close>

definition page :: query where
  "page = \<lparr>invoiceApprovalAlias = None, limit = Some 20, offset = Some 0, includeAttachmentData = False\<rparr>"

definition partial_status :: "(string, last_result) ocr_status" where
  "partial_status =
     \<lparr>isRunning = False, startTime = None, progress = None,
      lastResult = Some \<lparr>lr_totalInvoices = 2, lr_successful = 1, lr_failed = 1,
                          lr_duration = 1500, lr_completedAt = ''2026-01-01T00:00:01.500Z''\<rparr>,
      lastError = None\<rparr>"

definition fresh_hook :: hook_state where
  "fresh_hook =
     \<lparr>status = \<lparr>isRunning = False, startTime = None, progress = None, lastResult = None,
                 lastError = None\<rparr>,
      lastProcessedResult = None\<rparr>"

text \<open>The store while a batch of two is running, and the aggregate of the spec's example.\<close>

definition running_store :: store where
  "running_store =
     \<lparr>isRunning = True, startTime = Some 0, progress = Some (0, 2), lastResult = None,
      lastError = None\<rparr>"

definition sample_result :: batch_result where
  "sample_result =
     \<lparr>totalInvoices = 10, successful = 8, failed = 2, duration = 1500, results = [],
      completedAt = ''2026-01-01T00:00:01.500Z''\<rparr>"


text \<open>
  Three notification services: one whose calls all return, one whose \<^verbatim>\<open>completeRefresh\<close>
  throws, one whose second \<^verbatim>\<open>updateProgress\<close> throws.
\<close>

definition quiet :: "'s service" where
  "quiet c s = (Inr (), s)"



text \<open>The number renderer of the concrete runs: nothing beyond the modelled range.\<close>

definition no_big :: "int \<Rightarrow> string" where
  "no_big i = []"

lemmas scen = scenario_def boot_def pdf_def call_def returned_def notify_def
  ensure_try_def ensureInvoiceAttachmentLinkage_def resetExtractErrorState_def
  refresh_one_def refreshOcrDataForInvoices_def reset_values_def linkage_values_def
  skipped_item_def refreshed_item_def failed_item_def


section \<open>The zero-value detector\<close>

text \<open>
  C7.  The zero-value detector holds exactly of an invoice whose untaxed amount is absent, null
  or zero; the two tests written out in the sources (the polling hook's and \<^verbatim>\<open>getInvoice\<close>'s)
  agree with it; it holds of the amounts 0 and null and not of 12.5.
\<close>

theorem zero_value_detector:
  "isZeroValueInvoice iv = (amount_untaxed iv = Absent \<or> amount_untaxed iv = Null \<or> amount_untaxed iv = Num 0)
   \<and> needs_ocr iv = isZeroValueInvoice iv
   \<and> hasZeroValue iv = isZeroValueInvoice iv
   \<and> isZeroValueInvoice (iv\<lparr>amount_untaxed := Num 0\<rparr>)
   \<and> isZeroValueInvoice (iv\<lparr>amount_untaxed := Null\<rparr>)
   \<and> \<not> isZeroValueInvoice (iv\<lparr>amount_untaxed := Num 12.5\<rparr>)"
  by (cases "amount_untaxed iv") (auto simp: isZeroValueInvoice_def needs_ocr_def hasZeroValue_def)

section \<open>The event log of the orchestrator\<close>

lemma store_calls_append: "store_calls (xs @ ys) = store_calls xs @ store_calls ys"
  by (induction xs rule: store_calls.induct) simp_all

lemma rpc_calls_append: "rpc_calls (xs @ ys) = rpc_calls xs @ rpc_calls ys"
  by (induction xs rule: rpc_calls.induct) simp_all

lemma call_events:
  "events (snd (call c f st)) = events st @ [Rpc c (returned (fst (f (remote st))))]"
  by (simp add: call_def split: prod.splits)

lemma call_remote: "remote (snd (call c f st)) = snd (f (remote st))"
  by (simp add: call_def split: prod.splits)


lemma call_store: "store_calls (events (snd (call c f st))) = store_calls (events st)"
  by (simp add: call_events store_calls_append)

lemma call_store': "call c f st = (r, st') \<Longrightarrow> store_calls (events st') = store_calls (events st)"
  using call_store[of c f st] by simp

lemma reset_store: "resetExtractErrorState api i st = (r, st') \<Longrightarrow> store_calls (events st') = store_calls (events st)"
  unfolding resetExtractErrorState_def by (rule call_store')

lemma ensure_try_store:
  "store_calls (events (snd (ensure_try api i st))) = store_calls (events st)"
  unfolding ensure_try_def
  by (auto split: prod.splits sum.splits list.splits option.splits dest!: call_store' reset_store)

lemma ensure_store:
  "store_calls (events (snd (ensureInvoiceAttachmentLinkage api i st))) = store_calls (events st)"
  using ensure_try_store[of api i st]
  unfolding ensureInvoiceAttachmentLinkage_def
  by (auto split: prod.splits sum.splits)

lemma notify_store: "store_calls (events (notify c st)) = store_calls (events st) @ [c]"
  by (simp add: notify_def store_calls_append)

lemma refresh_one_store:
  "store_calls (events (snd (refresh_one api n i iid st))) = store_calls (events st) @ [UpdateProgress (i + 1) n]"
  using ensure_store[of api iid st]
  unfolding refresh_one_def
  by (auto split: prod.splits sum.splits bool.splits simp: notify_store dest!: call_store')

lemma refresh_loop_store:
  "store_calls (events (snd (refresh_loop api n i ids rs st))) =
     store_calls (events st) @ map (\<lambda>k. UpdateProgress (k + 1) n) [i ..< i + length ids]"
proof (induction ids arbitrary: i rs st)
  case Nil
  then show ?case by simp
next
  case (Cons iid ids)
  obtain r st' where one: "refresh_one api n i iid st = (r, st')" by (cases "refresh_one api n i iid st")
  have "store_calls (events st') = store_calls (events st) @ [UpdateProgress (i + 1) n]"
    using refresh_one_store[of api n i iid st] one by simp
  moreover have "[i ..< i + length (iid # ids)] = i # [i + 1 ..< (i + 1) + length ids]"
    by (subst upt_rec) simp
  ultimately show ?case using Cons.IH[of "i + 1" "rs @ [r]" st'] one by simp
qed





section \<open>The loop over the ids\<close>

lemma refresh_one_invoiceId: "invoiceId (fst (refresh_one api n i iid st)) = iid"
  unfolding refresh_one_def skipped_item_def refreshed_item_def failed_item_def
  by (simp split: prod.splits sum.splits bool.splits)

lemma refresh_loop_acc:
  "refresh_loop api n i ids rs st =
     (rs @ fst (refresh_loop api n i ids [] st), snd (refresh_loop api n i ids [] st))"
proof (induction ids arbitrary: i rs st)
  case Nil
  then show ?case by simp
next
  case (Cons iid ids)
  obtain r st' where one: "refresh_one api n i iid st = (r, st')" by (cases "refresh_one api n i iid st")
  show ?case
    using Cons.IH[of "i + 1" "rs @ [r]" st'] Cons.IH[of "i + 1" "[r]" st'] one by simp
qed

lemma refresh_loop_Cons:
  "refresh_loop api n i (iid # ids) [] st =
     (fst (refresh_one api n i iid st) # fst (refresh_loop api n (i + 1) ids [] (snd (refresh_one api n i iid st))),
      snd (refresh_loop api n (i + 1) ids [] (snd (refresh_one api n i iid st))))"
proof -
  obtain r st' where one: "refresh_one api n i iid st = (r, st')" by (cases "refresh_one api n i iid st")
  show ?thesis using refresh_loop_acc[of api n "i + 1" ids "[r]" st'] one by simp
qed


lemma refresh_loop_ids:
  "map invoiceId (fst (refresh_loop api n i ids [] st)) = ids"
proof (induction ids arbitrary: i st)
  case Nil
  then show ?case by simp
next
  case (Cons x xs)
  show ?case unfolding refresh_loop_Cons by (simp add: refresh_one_invoiceId Cons.IH)
qed

lemma refresh_results:
  "results (fst (refreshOcrDataForInvoices api ids st)) = fst (refresh_loop api (length ids) 0 ids [] st)"
  by (simp add: refreshOcrDataForInvoices_def Let_def split: prod.splits)

lemma refresh_snd:
  "snd (refreshOcrDataForInvoices api ids st) = snd (refresh_loop api (length ids) 0 ids [] st)"
  by (simp add: refreshOcrDataForInvoices_def Let_def split: prod.splits)

subsection \<open>A failing extraction call\<close>






subsection \<open>Linkage repair\<close>




lemma returned_fst:
  "(case p of (Inl e, s') \<Rightarrow> False | (Inr u, s') \<Rightarrow> True) = returned (fst p)"
  by (cases p) (simp add: returned_def split: sum.splits)

lemma ensure_fst:
  "fst (ensureInvoiceAttachmentLinkage api iid st) =
     (case searchRead_move api iid (remote st) of
        (Inl e, s1) \<Rightarrow> False
      | (Inr [], s1) \<Rightarrow> False
      | (Inr (row # rows), s1) \<Rightarrow>
          (case main_attachment (message_main_attachment_id row) of
             Some a \<Rightarrow> returned (fst (write_move api [iid] reset_values s1))
           | None \<Rightarrow>
               (case searchRead_attachment api iid s1 of
                  (Inl e, s2) \<Rightarrow> False
                | (Inr [], s2) \<Rightarrow> False
                | (Inr (att # atts), s2) \<Rightarrow>
                    (case write_move api [iid] (linkage_values (att_id att)) s2 of
                       (Inl e, s3) \<Rightarrow> False
                     | (Inr u, s3) \<Rightarrow> returned (fst (write_move api [iid] reset_values s3))))))"
  unfolding ensureInvoiceAttachmentLinkage_def ensure_try_def resetExtractErrorState_def call_def returned_def
  by (auto split: prod.splits sum.splits list.splits option.splits)

text \<open>
  C10.  \<^verbatim>\<open>ensureInvoiceAttachmentLinkage\<close> returns a boolean for every invoice id and every
  behaviour of the remote store.  It returns true exactly when the invoice read returns a row
  and either the row's main-attachment field holds an attachment id (a pair or a bare id
  other than 0) and the error-state reset write returns, or the field holds none, the
  attachment search returns a first attachment, the write of its id into the field returns,
  and the reset write returns.  It returns false when the invoice is not found, has no
  attachment, or any of these calls throws.  Whenever it returns false the orchestrator
  records the item with the fixed message \<^verbatim>\<open>No attachment found to process\<close>, whatever was
  thrown, and makes no further remote call for that invoice.
\<close>

theorem ensure_linkage_never_throws:
  "fst (ensureInvoiceAttachmentLinkage api iid st) =
     (case searchRead_move api iid (remote st) of
        (Inl e, s1) \<Rightarrow> False
      | (Inr [], s1) \<Rightarrow> False
      | (Inr (row # rows), s1) \<Rightarrow>
          (let reset_returns = (\<lambda>s. case write_move api [iid]
                   [(''extract_state'', JStr ''no_extract_requested''),
                    (''extract_status'', JBool False),
                    (''extract_error_message'', JBool False)] s of
                 (Inl e, s') \<Rightarrow> False | (Inr u, s') \<Rightarrow> True);
               links_first =
                 (case searchRead_attachment api iid s1 of
                    (Inl e, s2) \<Rightarrow> False
                  | (Inr [], s2) \<Rightarrow> False
                  | (Inr (att # atts), s2) \<Rightarrow>
                      (case write_move api [iid]
                              [(''message_main_attachment_id'', JNum (att_id att))] s2 of
                         (Inl e, s3) \<Rightarrow> False
                       | (Inr u, s3) \<Rightarrow> reset_returns s3))
           in case message_main_attachment_id row of
                Unset \<Rightarrow> links_first
              | Ref a nm \<Rightarrow> if a = 0 then links_first else reset_returns s1
              | RefId a \<Rightarrow> if a = 0 then links_first else reset_returns s1))
   \<and> fst (ensureInvoiceAttachmentLinkage api iid st) = (fst (ensure_try api iid st) = Inr True)
   \<and> (\<not> fst (ensureInvoiceAttachmentLinkage api iid st) \<longrightarrow>
        fst (refresh_one api n i iid st) =
          \<lparr>invoiceId = iid, success = False, error = Some ''No attachment found to process'',
           attachmentLinkage = no_attachment\<rparr>
        \<and> rpc_calls (events (snd (refresh_one api n i iid st))) =
            rpc_calls (events (snd (ensureInvoiceAttachmentLinkage api iid st))))"
proof (intro conjI impI)
  show "fst (ensureInvoiceAttachmentLinkage api iid st) =
     (case searchRead_move api iid (remote st) of
        (Inl e, s1) \<Rightarrow> False
      | (Inr [], s1) \<Rightarrow> False
      | (Inr (row # rows), s1) \<Rightarrow>
          (let reset_returns = (\<lambda>s. case write_move api [iid]
                   [(''extract_state'', JStr ''no_extract_requested''),
                    (''extract_status'', JBool False),
                    (''extract_error_message'', JBool False)] s of
                 (Inl e, s') \<Rightarrow> False | (Inr u, s') \<Rightarrow> True);
               links_first =
                 (case searchRead_attachment api iid s1 of
                    (Inl e, s2) \<Rightarrow> False
                  | (Inr [], s2) \<Rightarrow> False
                  | (Inr (att # atts), s2) \<Rightarrow>
                      (case write_move api [iid]
                              [(''message_main_attachment_id'', JNum (att_id att))] s2 of
                         (Inl e, s3) \<Rightarrow> False
                       | (Inr u, s3) \<Rightarrow> reset_returns s3))
           in case message_main_attachment_id row of
                Unset \<Rightarrow> links_first
              | Ref a nm \<Rightarrow> if a = 0 then links_first else reset_returns s1
              | RefId a \<Rightarrow> if a = 0 then links_first else reset_returns s1))"
  proof (cases "searchRead_move api iid (remote st)")
    case (Pair r1 s1)
    show ?thesis
    proof (cases r1)
      case (Inl e)
      then show ?thesis using Pair by (simp add: ensure_fst)
    next
      case (Inr found)
      show ?thesis
      proof (cases found)
        case Nil
        then show ?thesis using Pair Inr by (simp add: ensure_fst)
      next
        case (Cons row rows)
        have v: "reset_values = [(''extract_state'', JStr ''no_extract_requested''),
                    (''extract_status'', JBool False),
                    (''extract_error_message'', JBool False)]"
          by (simp add: reset_values_def)
        show ?thesis
        proof (cases "message_main_attachment_id row")
          case Unset
          then show ?thesis
            unfolding ensure_fst Pair Inr Cons Let_def returned_fst v [symmetric] linkage_values_def
            by simp
        next
          case (Ref a nm)
          then show ?thesis
            unfolding ensure_fst Pair Inr Cons Let_def returned_fst v [symmetric] linkage_values_def
            by simp
        next
          case (RefId a)
          then show ?thesis
            unfolding ensure_fst Pair Inr Cons Let_def returned_fst v [symmetric] linkage_values_def
            by simp
        qed
      qed
    qed
  qed
next
  show "fst (ensureInvoiceAttachmentLinkage api iid st) = (fst (ensure_try api iid st) = Inr True)"
    unfolding ensureInvoiceAttachmentLinkage_def
    by (auto split: prod.splits sum.splits)
next
  assume f: "\<not> fst (ensureInvoiceAttachmentLinkage api iid st)"
  then show "fst (refresh_one api n i iid st) =
          \<lparr>invoiceId = iid, success = False, error = Some ''No attachment found to process'',
           attachmentLinkage = no_attachment\<rparr>"
    unfolding refresh_one_def skipped_item_def by (auto split: prod.splits bool.splits)
  from f show "rpc_calls (events (snd (refresh_one api n i iid st))) =
            rpc_calls (events (snd (ensureInvoiceAttachmentLinkage api iid st)))"
    unfolding refresh_one_def notify_def by (auto simp: rpc_calls_append split: prod.splits bool.splits)
qed

theorem ensure_linkage_witness:
  "fst (ensureInvoiceAttachmentLinkage scenario 2 boot)
   \<and> fst (ensureInvoiceAttachmentLinkage scenario 3 boot)
   \<and> \<not> fst (ensureInvoiceAttachmentLinkage scenario 1 boot)
   \<and> \<not> fst (ensureInvoiceAttachmentLinkage scenario 5 boot)
   \<and> \<not> fst (ensureInvoiceAttachmentLinkage scenario 4 boot)
   \<and> fst (ensure_try scenario 4 boot) = Inl (JsError ''connection reset'')
   \<and> error (fst (refresh_one scenario 1 0 4 boot)) = Some ''No attachment found to process''
   \<and> rpc_calls (events (snd (refresh_one scenario 1 0 4 boot))) = [SearchReadMove 4]"
proof -
  have l: "fst (ensureInvoiceAttachmentLinkage scenario 2 boot)"
    using ensure_linkage_never_throws[of scenario 2 boot 1 0, THEN conjunct1]
    by (simp add: scenario_def boot_def)
  have u: "fst (ensureInvoiceAttachmentLinkage scenario 3 boot)"
    using ensure_linkage_never_throws[of scenario 3 boot 1 0, THEN conjunct1]
    by (simp add: scenario_def boot_def pdf_def)
  have n: "\<not> fst (ensureInvoiceAttachmentLinkage scenario 1 boot)"
    using ensure_linkage_never_throws[of scenario 1 boot 1 0, THEN conjunct1]
    by (simp add: scenario_def boot_def)
  have m: "\<not> fst (ensureInvoiceAttachmentLinkage scenario 5 boot)"
    using ensure_linkage_never_throws[of scenario 5 boot 1 0, THEN conjunct1]
    by (simp add: scenario_def boot_def)
  have f: "\<not> fst (ensureInvoiceAttachmentLinkage scenario 4 boot)"
    using ensure_linkage_never_throws[of scenario 4 boot 1 0, THEN conjunct1]
    by (simp add: scenario_def boot_def)
  have t: "fst (ensure_try scenario 4 boot) = Inl (JsError ''connection reset'')"
    by (simp add: scen)
  have e: "events (snd (ensureInvoiceAttachmentLinkage scenario 4 boot)) = [Rpc (SearchReadMove 4) False]"
    by (simp add: scen)
  have "fst (refresh_one scenario 1 0 4 boot) =
          \<lparr>invoiceId = 4, success = False, error = Some ''No attachment found to process'',
           attachmentLinkage = no_attachment\<rparr>
        \<and> rpc_calls (events (snd (refresh_one scenario 1 0 4 boot))) =
            rpc_calls (events (snd (ensureInvoiceAttachmentLinkage scenario 4 boot)))"
    using ensure_linkage_never_throws[of scenario 4 boot 1 0] f by blast
  then show ?thesis using l u n m f t e by simp
qed

subsection \<open>The aggregate\<close>











section \<open>The notification store between batches\<close>

lemma idle_run_no_start:
  "\<not> isRunning s \<Longrightarrow> filter is_start ops = [] \<Longrightarrow> store_run ops s = Some s' \<Longrightarrow> s' = s"
proof (induction ops arbitrary: s)
  case Nil
  then show ?case by simp
next
  case (Cons x xs)
  then show ?case
    by (cases x) (auto simp: updateProgress_def completeRefresh_def failRefresh_def getSnapshot_def
        split: option.splits if_splits)
qed

lemma run_keeps_lastResult:
  "filter is_terminal_op ops = [] \<Longrightarrow> store_run ops s = Some s' \<Longrightarrow> lastResult s' = lastResult s"
proof (induction ops arbitrary: s)
  case Nil
  then show ?case by simp
next
  case (Cons x xs)
  then show ?case
    by (cases x) (auto simp: startRefresh_def updateProgress_def getSnapshot_def
        split: option.splits if_splits)
qed

text \<open>
  C9.  While running, \<^verbatim>\<open>completeRefresh(r)\<close> succeeds and leaves a store whose snapshot is not
  running and has \<open>lastResult = r\<close>; whatever valid calls follow before the next
  \<^verbatim>\<open>startRefresh\<close>, the snapshot still has \<open>lastResult = r\<close>; a following
  \<^verbatim>\<open>startRefresh(ids)\<close> sets the progress to \<open>(0, size of ids)\<close> and keeps \<open>lastResult = r\<close>,
  which stays through all valid calls up to the new batch's own terminal call;
  \<^verbatim>\<open>completeRefresh(r')\<close> then replaces it by \<open>r'\<close>.
\<close>

theorem last_result_kept_until_next_terminal_call:
  assumes "isRunning s"
  shows "\<exists>s1. completeRefresh r s = Some s1
          \<and> \<not> isRunning (getSnapshot s1) \<and> lastResult (getSnapshot s1) = Some r
          \<and> (\<forall>ops s2. filter is_start ops = [] \<and> store_run ops s1 = Some s2 \<longrightarrow>
                lastResult (getSnapshot s2) = Some r)
          \<and> (\<forall>ids now. \<exists>s3. startRefresh ids now s1 = Some s3
                \<and> isRunning (getSnapshot s3)
                \<and> progress (getSnapshot s3) = Some (0, length ids)
                \<and> lastResult (getSnapshot s3) = Some r
                \<and> (\<forall>ops s4. filter is_terminal_op ops = [] \<and> store_run ops s3 = Some s4 \<longrightarrow>
                      lastResult (getSnapshot s4) = Some r)
                \<and> (\<forall>r'. \<exists>s5. completeRefresh r' s3 = Some s5 \<and> lastResult (getSnapshot s5) = Some r'))"
proof -
  let ?s1 = "s\<lparr>isRunning := False, progress := None, lastResult := Some r, lastError := None\<rparr>"
  have c: "completeRefresh r s = Some ?s1" using assms by (simp add: completeRefresh_def)
  have a: "\<forall>ops s2. filter is_start ops = [] \<and> store_run ops ?s1 = Some s2 \<longrightarrow>
                lastResult (getSnapshot s2) = Some r"
  proof (intro allI impI)
    fix ops s2
    assume h: "filter is_start ops = [] \<and> store_run ops ?s1 = Some s2"
    have idle: "\<not> isRunning ?s1" by simp
    have "s2 = ?s1" using idle_run_no_start[OF idle, of ops s2] h by simp
    then show "lastResult (getSnapshot s2) = Some r" by (simp add: getSnapshot_def)
  qed
  have b: "\<forall>ids now. \<exists>s3. startRefresh ids now ?s1 = Some s3
                \<and> isRunning (getSnapshot s3)
                \<and> progress (getSnapshot s3) = Some (0, length ids)
                \<and> lastResult (getSnapshot s3) = Some r
                \<and> (\<forall>ops s4. filter is_terminal_op ops = [] \<and> store_run ops s3 = Some s4 \<longrightarrow>
                      lastResult (getSnapshot s4) = Some r)
                \<and> (\<forall>r'. \<exists>s5. completeRefresh r' s3 = Some s5 \<and> lastResult (getSnapshot s5) = Some r')"
  proof (intro allI)
    fix ids :: "int list" and now :: int
    let ?s3 = "?s1\<lparr>isRunning := True, startTime := Some now, progress := Some (0, length ids)\<rparr>"
    have "startRefresh ids now ?s1 = Some ?s3" by (simp add: startRefresh_def)
    moreover have "\<forall>ops s4. filter is_terminal_op ops = [] \<and> store_run ops ?s3 = Some s4 \<longrightarrow>
                      lastResult (getSnapshot s4) = Some r"
    proof (intro allI impI)
      fix ops s4
      assume h: "filter is_terminal_op ops = [] \<and> store_run ops ?s3 = Some s4"
      have "lastResult s4 = lastResult ?s3" using run_keeps_lastResult[of ops ?s3 s4] h by simp
      then show "lastResult (getSnapshot s4) = Some r" by (simp add: getSnapshot_def)
    qed
    ultimately show "\<exists>s3. startRefresh ids now ?s1 = Some s3
                \<and> isRunning (getSnapshot s3)
                \<and> progress (getSnapshot s3) = Some (0, length ids)
                \<and> lastResult (getSnapshot s3) = Some r
                \<and> (\<forall>ops s4. filter is_terminal_op ops = [] \<and> store_run ops s3 = Some s4 \<longrightarrow>
                      lastResult (getSnapshot s4) = Some r)
                \<and> (\<forall>r'. \<exists>s5. completeRefresh r' s3 = Some s5 \<and> lastResult (getSnapshot s5) = Some r')"
      by (simp add: getSnapshot_def completeRefresh_def)
  qed
  show ?thesis using c a b by (simp add: getSnapshot_def)
qed

theorem last_result_kept_witness:
  "isRunning running_store
   \<and> (\<exists>s1. completeRefresh sample_result running_store = Some s1
          \<and> \<not> isRunning (getSnapshot s1)
          \<and> lastResult (getSnapshot s1) = Some sample_result
          \<and> (\<exists>s3. startRefresh [7] 10 s1 = Some s3
                \<and> progress (getSnapshot s3) = Some (0, 1)
                \<and> lastResult (getSnapshot s3) = Some sample_result))"
proof -
  have h: "isRunning running_store" by (simp add: running_store_def)
  obtain s1 where s1: "completeRefresh sample_result running_store = Some s1"
      "\<not> isRunning (getSnapshot s1)" "lastResult (getSnapshot s1) = Some sample_result"
      "\<forall>ids now. \<exists>s3. startRefresh ids now s1 = Some s3
          \<and> isRunning (getSnapshot s3)
          \<and> progress (getSnapshot s3) = Some (0, length ids)
          \<and> lastResult (getSnapshot s3) = Some sample_result
          \<and> (\<forall>ops s4. filter is_terminal_op ops = [] \<and> store_run ops s3 = Some s4 \<longrightarrow>
                lastResult (getSnapshot s4) = Some sample_result)
          \<and> (\<forall>r'. \<exists>s5. completeRefresh r' s3 = Some s5 \<and> lastResult (getSnapshot s5) = Some r')"
    using last_result_kept_until_next_terminal_call[OF h, of sample_result] by blast
  obtain s3 where "startRefresh [7] 10 s1 = Some s3" "progress (getSnapshot s3) = Some (0, length [7::int])"
      "lastResult (getSnapshot s3) = Some sample_result"
    using s1(4) by blast
  then show ?thesis using h s1(1,2,3) by auto
qed

section \<open>The polling hook's notification\<close>

text \<open>
  C2 (as amended).  When \<^verbatim>\<open>pollStatus\<close> receives a snapshot whose \<^verbatim>\<open>lastResult\<close> has a
  \<^verbatim>\<open>completedAt\<close> other than the last one it processed, it raises exactly one toast for that
  result (followed by at most one for a \<^verbatim>\<open>lastError\<close>), chosen by the first test that holds:
  when \<open>successful = totalInvoices\<close>, a success toast titled \<^verbatim>\<open>OCR Refresh Complete\<close> whose
  description gives the count and the duration in seconds, shown for 5 s; otherwise, when
  \<open>successful > 0\<close>, again a success toast, titled \<^verbatim>\<open>OCR Refresh Partially Complete\<close>, whose
  description gives the succeeded count, the total and the failed count, shown for 7 s;
  otherwise an error toast titled \<^verbatim>\<open>OCR Refresh Failed\<close> whose description gives the total,
  shown for 7 s.  It is never a warning toast.  The numbers appear in decimal digits (below
  \<open>10\<^sup>2\<^sup>1\<close> in magnitude).
\<close>

theorem result_toast_classification:
  assumes "lastResult newStatus = Some r"
      and "Some (lr_completedAt r) \<noteq> lastProcessedResult h"
  shows "fst (pollStatus big (Ok newStatus) h) =
           result_toast big r #
           (case lastError newStatus of
              Some e \<Rightarrow> if e \<noteq> [] \<and> Some e \<noteq> lastProcessedResult h then [error_toast_for e] else []
            | None \<Rightarrow> [])
         \<and> (lr_successful r = lr_totalInvoices r \<longrightarrow>
              result_toast big r =
                \<lparr>kind = success_toast, title = ''OCR Refresh Complete'',
                 description = ''Successfully refreshed '' @ number_string big (lr_successful r) @
                   '' invoice'' @ (if lr_successful r \<noteq> 1 then ''s'' else []) @ '' in '' @
                   number_string big ((lr_duration r + 500) div 1000) @ ''s'',
                 shown_ms = 5000\<rparr>)
         \<and> (lr_successful r \<noteq> lr_totalInvoices r \<and> 0 < lr_successful r \<longrightarrow>
              result_toast big r =
                \<lparr>kind = success_toast, title = ''OCR Refresh Partially Complete'',
                 description = ''Refreshed '' @ number_string big (lr_successful r) @ ''/'' @
                   number_string big (lr_totalInvoices r) @ '' invoices successfully. '' @
                   number_string big (lr_failed r) @ '' failed.'',
                 shown_ms = 7000\<rparr>)
         \<and> (lr_successful r \<noteq> lr_totalInvoices r \<and> lr_successful r \<le> 0 \<longrightarrow>
              result_toast big r =
                \<lparr>kind = error_toast, title = ''OCR Refresh Failed'',
                 description = ''Failed to refresh '' @ number_string big (lr_totalInvoices r) @
                   '' invoice'' @ (if lr_totalInvoices r \<noteq> 1 then ''s'' else []) @
                   ''. Please try again.'',
                 shown_ms = 7000\<rparr>)
         \<and> kind (result_toast big r) \<noteq> warning_toast
         \<and> (\<bar>k\<bar> < 10 ^ 21 \<longrightarrow>
              number_string big k =
                (if k < 0 then ''-'' @ show_nat (nat (- k)) else show_nat (nat k)))
         \<and> show_nat 7 = ''7'' \<and> show_nat 1500 = ''1500''"
proof -
  have p: "fst (pollStatus big (Ok newStatus) h) =
           result_toast big r #
           (case lastError newStatus of
              Some e \<Rightarrow> if e \<noteq> [] \<and> Some e \<noteq> lastProcessedResult h then [error_toast_for e] else []
            | None \<Rightarrow> [])"
    using assms by (simp add: pollStatus_def Let_def split: option.splits prod.splits)
  have d: "show_nat 7 = ''7''" "show_nat 1500 = ''1500''"
    by (simp_all add: show_nat.simps)
  show ?thesis
    using p d by (simp add: result_toast_def round_seconds_def number_string_def)
qed

theorem result_toast_witness:
  "fst (pollStatus no_big (Ok partial_status) fresh_hook) =
     [\<lparr>kind = success_toast, title = ''OCR Refresh Partially Complete'',
       description = ''Refreshed 1/2 invoices successfully. 1 failed.'',
       shown_ms = 7000\<rparr>]"
proof -
  have h1: "lastResult partial_status =
      Some \<lparr>lr_totalInvoices = 2, lr_successful = 1, lr_failed = 1,
            lr_duration = 1500, lr_completedAt = ''2026-01-01T00:00:01.500Z''\<rparr>"
    by (simp add: partial_status_def)
  have h2: "Some (lr_completedAt \<lparr>lr_totalInvoices = 2, lr_successful = 1, lr_failed = 1,
            lr_duration = 1500, lr_completedAt = ''2026-01-01T00:00:01.500Z''\<rparr>) \<noteq> lastProcessedResult fresh_hook"
    by (simp add: fresh_hook_def)
  have n: "number_string no_big 1 = ''1''" "number_string no_big 2 = ''2''"
    by (simp_all add: number_string_def show_nat.simps)
  show ?thesis
    using result_toast_classification[OF h1 h2, of no_big]
    by (simp add: partial_status_def n)
qed

text \<open>
  C2 as stated fails for a partial success: with 1 of 2 invoices refreshed the toast raised is
  a success toast, not a warning.
\<close>

theorem partial_success_counterexample:
  "lastResult partial_status =
      Some \<lparr>lr_totalInvoices = 2, lr_successful = 1, lr_failed = 1,
            lr_duration = 1500, lr_completedAt = ''2026-01-01T00:00:01.500Z''\<rparr>
   \<and> map kind (fst (pollStatus no_big (Ok partial_status) fresh_hook)) = [success_toast]
   \<and> map kind (fst (pollStatus no_big (Ok partial_status) fresh_hook)) \<noteq> [warning_toast]"
  by (simp add: partial_status_def fresh_hook_def pollStatus_def result_toast_def)

section \<open>Starting a batch\<close>

lemma invoke_events: "events (snd (invoke svc c st)) = events st @ [Store c]"
  by (simp add: invoke_def split: prod.splits)


lemma invoke_remote: "remote (snd (invoke svc c st)) = snd (svc c (remote st))"
  by (simp add: invoke_def split: prod.splits)

lemma invoke_store:
  "invoke svc c st = (r, st') \<Longrightarrow> store_calls (events st') = store_calls (events st) @ [c]"
  using invoke_events[of svc c st] by (simp add: store_calls_append)

lemma invoke_quiet: "invoke quiet c st = (Inr (), notify c st)"
  by (simp add: invoke_def quiet_def notify_def)




lemma thrown_message:
  "error_message e = (case e of JsError m \<Rightarrow> m | NonError v \<Rightarrow> ''Unknown error'')"
  by (cases e) simp_all

lemma settle_store:
  "store_calls (events (snd (settle svc outcome st))) =
     store_calls (events st) @
     (case outcome of
        Inr result \<Rightarrow>
          CompleteRefresh result #
          (case svc (CompleteRefresh result) (remote st) of
             (Inr u, s2) \<Rightarrow> []
           | (Inl e, s2) \<Rightarrow> [FailRefresh (case e of JsError m \<Rightarrow> m | NonError v \<Rightarrow> ''Unknown error'')])
      | Inl e \<Rightarrow> [FailRefresh (case e of JsError m \<Rightarrow> m | NonError v \<Rightarrow> ''Unknown error'')])"
proof (cases outcome)
  case (Inl e)
  then show ?thesis
    by (simp add: settle_def invoke_events store_calls_append thrown_message)
next
  case (Inr result)
  obtain r1 s1 where v: "svc (CompleteRefresh result) (remote st) = (r1, s1)"
    by (cases "svc (CompleteRefresh result) (remote st)")
  obtain st1 where i1: "invoke svc (CompleteRefresh result) st = (r1, st1)"
    using v by (simp add: invoke_def)
  show ?thesis
  proof (cases r1)
    case (Inl e)
    obtain r2 st2 where i2: "invoke svc (FailRefresh (error_message e)) st1 = (r2, st2)"
      by (cases "invoke svc (FailRefresh (error_message e)) st1")
    have "snd (settle svc outcome st) = st2"
      using Inr Inl i1 i2 by (simp add: settle_def)
    then show ?thesis
      using Inr Inl v invoke_store[OF i1] invoke_store[OF i2] by (simp add: thrown_message)
  next
    case (Inr u)
    have "snd (settle svc outcome st) = st1"
      using \<open>outcome = Inr result\<close> Inr i1 by (simp add: settle_def)
    then show ?thesis
      using \<open>outcome = Inr result\<close> Inr v invoke_store[OF i1] by simp
  qed
qed




lemma quiet_one:
  "refresh_one_svc api quiet n i iid st =
     (Inr [fst (refresh_one api n i iid st)], snd (refresh_one api n i iid st))"
  unfolding refresh_one_svc_def refresh_one_def invoke_quiet
  by (auto split: prod.splits sum.splits bool.splits)

lemma quiet_loop:
  "refresh_loop_svc api quiet n i ids rs st =
     (Inr (fst (refresh_loop api n i ids rs st)), snd (refresh_loop api n i ids rs st))"
proof (induction ids arbitrary: i rs st)
  case Nil
  then show ?case by simp
next
  case (Cons iid ids)
  show ?case
    using Cons.IH[of "i + 1" "rs @ [fst (refresh_one api n i iid st)]" "snd (refresh_one api n i iid st)"]
    by (simp add: quiet_one split: prod.splits)
qed

lemma quiet_run:
  "refreshOcrDataForInvoices_svc api quiet ids st =
     (Inr (fst (refreshOcrDataForInvoices api ids st)), snd (refreshOcrDataForInvoices api ids st))"
  by (simp add: refreshOcrDataForInvoices_svc_def refreshOcrDataForInvoices_def quiet_loop Let_def
      split: prod.splits)







section \<open>The list fetch\<close>

lemma foldl_group_step:
  "foldl (group_step w) m as r =
     (if r = 0 \<or> filter (\<lambda>a. att_res_id a = Some r) as = [] then m r
      else Some ((case m r of None \<Rightarrow> [] | Some c \<Rightarrow> c) @
                 map (pushed w) (filter (\<lambda>a. att_res_id a = Some r) as)))"
proof (induction as arbitrary: m)
  case Nil
  then show ?case by simp
next
  case (Cons a as)
  show ?case
    unfolding foldl_Cons Cons.IH
    by (cases "att_res_id a") (auto simp: group_step_def)
qed

lemma has_attachments_with:
  "has_attachments (with_attachments (attachmentsByInvoice w allAttachments) iv) =
     (inv_id iv \<noteq> 0 \<and> (\<exists>a \<in> set allAttachments. att_res_id a = Some (inv_id iv)))"
  unfolding has_attachments_def with_attachments_def attachmentsByInvoice_def foldl_group_step
  by (auto simp: filter_empty_conv)

lemma zero_value_with: "isZeroValueInvoice (with_attachments m iv) = isZeroValueInvoice iv"
  by (simp add: isZeroValueInvoice_def with_attachments_def)

lemma inv_id_with: "inv_id (with_attachments m iv) = inv_id iv"
  by (simp add: with_attachments_def)

lemma listed_candidates:
  "map inv_id (filter has_attachments (filter isZeroValueInvoice
       (map (with_attachments (attachmentsByInvoice w atts)) fetched))) =
     remote_candidates fetched atts"
proof (induction fetched)
  case Nil
  then show ?case by (simp add: remote_candidates_def)
next
  case (Cons iv ivs)
  then show ?case
    by (simp add: remote_candidates_def zero_value_with has_attachments_with inv_id_with)
qed

lemma start_background_eq:
  "start_background api svc ids st =
     (case svc (StartRefresh ids) (remote st) of
        (Inl e, s3) \<Rightarrow> (Inl e, \<lparr>remote = s3, events = events st @ [Store (StartRefresh ids)]\<rparr>)
      | (Inr u, s3) \<Rightarrow>
          (Inr (), snd (background_chain api svc ids
                          \<lparr>remote = s3, events = events st @ [Store (StartRefresh ids)]\<rparr>)))"
  by (simp add: start_background_def invoke_def split: prod.splits sum.splits)

lemma getAllInvoices_listed:
  assumes "call (SearchReadInvoices q) (searchRead_invoices api q) st = (Inr fetched, st1)"
      and "fetch_attachments api q fetched st1 = (Inr listed, st2)"
      and "map inv_id (filter has_attachments (filter isZeroValueInvoice listed)) = cand"
  shows "getAllInvoices api svc q skipOcrRefresh st =
           (if \<not> skipOcrRefresh \<and> cand \<noteq> [] then
              (case start_background api svc cand st2 of
                 (Inl e, st3) \<Rightarrow> (Inl e, st3)
               | (Inr u, st3) \<Rightarrow>
                   (Inr \<lparr>invoices = listed, ocrRefreshPerformed = True,
                         zeroValueInvoicesRefreshed = length cand, zeroValueInvoiceIds = cand\<rparr>, st3))
            else (Inr \<lparr>invoices = listed, ocrRefreshPerformed = False,
                       zeroValueInvoicesRefreshed = 0, zeroValueInvoiceIds = []\<rparr>, st2))"
proof -
  have l: "length cand = length (filter has_attachments (filter isZeroValueInvoice listed))"
    using assms(3) by (metis length_map)
  have e: "(cand = []) = (filter has_attachments (filter isZeroValueInvoice listed) = [])"
    using assms(3) by auto
  show ?thesis
  proof (cases "filter isZeroValueInvoice listed = []")
    case True
    then have "cand = []" using assms(3) by auto
    then show ?thesis
      using True assms(1,2) by (simp add: getAllInvoices_def Let_def)
  next
    case False
    show ?thesis
    proof (cases "filter has_attachments (filter isZeroValueInvoice listed) = []")
      case True
      then have "cand = []" using e by simp
      then show ?thesis
        using True False assms(1,2) by (simp add: getAllInvoices_def Let_def)
    next
      case nonempty: False
      then have c: "cand \<noteq> []" using e by simp
      show ?thesis
      proof (cases skipOcrRefresh)
        case True
        then show ?thesis
          using False assms(1,2) by (simp add: getAllInvoices_def Let_def)
      next
        case notskipped: False
        show ?thesis
          using notskipped c nonempty False assms l
          by (simp add: getAllInvoices_def Let_def split: prod.splits sum.splits)
      qed
    qed
  qed
qed

lemma chain_quiet_store:
  "store_calls (events (snd (background_chain api quiet ids st))) =
     store_calls (events st) @
       map (\<lambda>i. UpdateProgress (i + 1) (length ids)) [0 ..< length ids] @
       [CompleteRefresh (fst (refreshOcrDataForInvoices api ids st))]"
proof -
  have r: "store_calls (events (snd (refreshOcrDataForInvoices api ids st))) =
     store_calls (events st) @ map (\<lambda>i. UpdateProgress (i + 1) (length ids)) [0 ..< length ids]"
    unfolding refresh_snd using refresh_loop_store[of api "length ids" 0 ids "[]" st] by simp
  show ?thesis
    using settle_store[of quiet "Inr (fst (refreshOcrDataForInvoices api ids st))"
        "snd (refreshOcrDataForInvoices api ids st)"] r
    by (simp add: background_chain_def quiet_run quiet_def)
qed

text \<open>
  C6.  \<^verbatim>\<open>getAllInvoices\<close> calls \<^verbatim>\<open>startRefresh\<close>, and after its return starts the detached
  orchestrator chain, if and only if both fetches return, the refresh is not skipped, and
  the candidate list is not empty.  The candidates are the ids of the fetched zero-value
  invoices for which the attachment fetch, asked about the ids of all fetched invoices,
  returned at least one attachment.  The same list is given to \<^verbatim>\<open>startRefresh\<close>, run through
  by the chain, and returned as \<^verbatim>\<open>zeroValueInvoiceIds\<close>; when the refresh is skipped or
  there is no candidate, no call is made on the notification service and
  \<^verbatim>\<open>zeroValueInvoiceIds\<close> is empty; when a fetch or \<^verbatim>\<open>startRefresh\<close> throws,
  \<^verbatim>\<open>getAllInvoices\<close> throws the same and no chain is started.  With a service whose calls
  return and leave the state alone, the chain over a list of ids makes one progress update
  per id and completes with the aggregate of the orchestrator run over exactly these ids.
\<close>

theorem background_refresh_started_iff_candidates:
  "(case searchRead_invoices api q (remote st) of
      (Inl e, s1) \<Rightarrow>
        getAllInvoices api svc q skipOcrRefresh st =
          (Inl e, \<lparr>remote = s1, events = events st @ [Rpc (SearchReadInvoices q) False]\<rparr>)
    | (Inr [], s1) \<Rightarrow>
        getAllInvoices api svc q skipOcrRefresh st =
          (Inr \<lparr>invoices = [], ocrRefreshPerformed = False,
                zeroValueInvoicesRefreshed = 0, zeroValueInvoiceIds = []\<rparr>,
           \<lparr>remote = s1, events = events st @ [Rpc (SearchReadInvoices q) True]\<rparr>)
    | (Inr (iv # ivs), s1) \<Rightarrow>
        (case searchRead_attachments_in api (map inv_id (iv # ivs)) (includeAttachmentData q) s1 of
           (Inl e, s2) \<Rightarrow>
             getAllInvoices api svc q skipOcrRefresh st =
               (Inl e, \<lparr>remote = s2, events = events st @
                  [Rpc (SearchReadInvoices q) True,
                   Rpc (SearchReadAttachmentsIn (map inv_id (iv # ivs)) (includeAttachmentData q)) False]\<rparr>)
         | (Inr atts, s2) \<Rightarrow>
             (let cand = remote_candidates (iv # ivs) atts;
                  listed = map (with_attachments (attachmentsByInvoice (includeAttachmentData q) atts))
                             (iv # ivs);
                  fetched_events = events st @
                    [Rpc (SearchReadInvoices q) True,
                     Rpc (SearchReadAttachmentsIn (map inv_id (iv # ivs)) (includeAttachmentData q)) True]
              in if \<not> skipOcrRefresh \<and> cand \<noteq> [] then
                   (case svc (StartRefresh cand) s2 of
                      (Inl e, s3) \<Rightarrow>
                        getAllInvoices api svc q skipOcrRefresh st =
                          (Inl e, \<lparr>remote = s3, events = fetched_events @ [Store (StartRefresh cand)]\<rparr>)
                    | (Inr u, s3) \<Rightarrow>
                        getAllInvoices api svc q skipOcrRefresh st =
                          (Inr \<lparr>invoices = listed, ocrRefreshPerformed = True,
                                zeroValueInvoicesRefreshed = length cand,
                                zeroValueInvoiceIds = cand\<rparr>,
                           snd (background_chain api svc cand
                                  \<lparr>remote = s3, events = fetched_events @ [Store (StartRefresh cand)]\<rparr>)))
                 else
                   getAllInvoices api svc q skipOcrRefresh st =
                     (Inr \<lparr>invoices = listed, ocrRefreshPerformed = False,
                           zeroValueInvoicesRefreshed = 0, zeroValueInvoiceIds = []\<rparr>,
                      \<lparr>remote = s2, events = fetched_events\<rparr>))))
   \<and> remote_candidates fetched atts' =
       map inv_id (filter (\<lambda>v. (amount_untaxed v = Absent \<or> amount_untaxed v = Null \<or>
                                  amount_untaxed v = Num 0) \<and> inv_id v \<noteq> 0 \<and>
                                 (\<exists>a \<in> set atts'. att_res_id a = Some (inv_id v))) fetched)
   \<and> store_calls (events (snd (background_chain api (\<lambda>c s. (Inr (), s)) ids st'))) =
       store_calls (events st') @
         map (\<lambda>i. UpdateProgress (i + 1) (length ids)) [0 ..< length ids] @
         [CompleteRefresh (fst (refreshOcrDataForInvoices api ids st'))]
   \<and> map invoiceId (results (fst (refreshOcrDataForInvoices api ids st'))) = ids"
proof (intro conjI)
  show "case searchRead_invoices api q (remote st) of
      (Inl e, s1) \<Rightarrow>
        getAllInvoices api svc q skipOcrRefresh st =
          (Inl e, \<lparr>remote = s1, events = events st @ [Rpc (SearchReadInvoices q) False]\<rparr>)
    | (Inr [], s1) \<Rightarrow>
        getAllInvoices api svc q skipOcrRefresh st =
          (Inr \<lparr>invoices = [], ocrRefreshPerformed = False,
                zeroValueInvoicesRefreshed = 0, zeroValueInvoiceIds = []\<rparr>,
           \<lparr>remote = s1, events = events st @ [Rpc (SearchReadInvoices q) True]\<rparr>)
    | (Inr (iv # ivs), s1) \<Rightarrow>
        (case searchRead_attachments_in api (map inv_id (iv # ivs)) (includeAttachmentData q) s1 of
           (Inl e, s2) \<Rightarrow>
             getAllInvoices api svc q skipOcrRefresh st =
               (Inl e, \<lparr>remote = s2, events = events st @
                  [Rpc (SearchReadInvoices q) True,
                   Rpc (SearchReadAttachmentsIn (map inv_id (iv # ivs)) (includeAttachmentData q)) False]\<rparr>)
         | (Inr atts, s2) \<Rightarrow>
             (let cand = remote_candidates (iv # ivs) atts;
                  listed = map (with_attachments (attachmentsByInvoice (includeAttachmentData q) atts))
                             (iv # ivs);
                  fetched_events = events st @
                    [Rpc (SearchReadInvoices q) True,
                     Rpc (SearchReadAttachmentsIn (map inv_id (iv # ivs)) (includeAttachmentData q)) True]
              in if \<not> skipOcrRefresh \<and> cand \<noteq> [] then
                   (case svc (StartRefresh cand) s2 of
                      (Inl e, s3) \<Rightarrow>
                        getAllInvoices api svc q skipOcrRefresh st =
                          (Inl e, \<lparr>remote = s3, events = fetched_events @ [Store (StartRefresh cand)]\<rparr>)
                    | (Inr u, s3) \<Rightarrow>
                        getAllInvoices api svc q skipOcrRefresh st =
                          (Inr \<lparr>invoices = listed, ocrRefreshPerformed = True,
                                zeroValueInvoicesRefreshed = length cand,
                                zeroValueInvoiceIds = cand\<rparr>,
                           snd (background_chain api svc cand
                                  \<lparr>remote = s3, events = fetched_events @ [Store (StartRefresh cand)]\<rparr>)))
                 else
                   getAllInvoices api svc q skipOcrRefresh st =
                     (Inr \<lparr>invoices = listed, ocrRefreshPerformed = False,
                           zeroValueInvoicesRefreshed = 0, zeroValueInvoiceIds = []\<rparr>,
                      \<lparr>remote = s2, events = fetched_events\<rparr>)))"
  proof (cases "searchRead_invoices api q (remote st)")
    case (Pair r1 s1)
    show ?thesis
    proof (cases r1)
      case (Inl e)
      then show ?thesis
        using Pair by (simp add: getAllInvoices_def call_def returned_def)
    next
      case (Inr fetched)
      have c1: "call (SearchReadInvoices q) (searchRead_invoices api q) st =
          (Inr fetched, \<lparr>remote = s1, events = events st @ [Rpc (SearchReadInvoices q) True]\<rparr>)"
        using Pair Inr by (simp add: call_def returned_def)
      show ?thesis
      proof (cases fetched)
        case Nil
        have f: "fetch_attachments api q [] \<lparr>remote = s1, events = events st @ [Rpc (SearchReadInvoices q) True]\<rparr> =
            (Inr [], \<lparr>remote = s1, events = events st @ [Rpc (SearchReadInvoices q) True]\<rparr>)"
          by (simp add: fetch_attachments_def)
        show ?thesis
          using Pair Inr Nil getAllInvoices_listed[OF c1[unfolded Nil] f, of "[]" svc skipOcrRefresh]
          by simp
      next
        case (Cons iv ivs)
        obtain r2 s2 where a: "searchRead_attachments_in api (map inv_id (iv # ivs))
            (includeAttachmentData q) s1 = (r2, s2)"
          by (cases "searchRead_attachments_in api (map inv_id (iv # ivs)) (includeAttachmentData q) s1")
        show ?thesis
        proof (cases r2)
          case (Inl e)
          have f: "fetch_attachments api q (iv # ivs)
                \<lparr>remote = s1, events = events st @ [Rpc (SearchReadInvoices q) True]\<rparr> =
              (Inl e, \<lparr>remote = s2, events = events st @
                  [Rpc (SearchReadInvoices q) True,
                   Rpc (SearchReadAttachmentsIn (map inv_id (iv # ivs)) (includeAttachmentData q)) False]\<rparr>)"
            using a Inl by (simp add: fetch_attachments_def call_def returned_def)
          show ?thesis
            using Pair Inr Cons a Inl c1 f by (simp add: getAllInvoices_def)
        next
          case atts: (Inr atts)
          let ?listed = "map (with_attachments (attachmentsByInvoice (includeAttachmentData q) atts)) (iv # ivs)"
          let ?ev = "events st @
                    [Rpc (SearchReadInvoices q) True,
                     Rpc (SearchReadAttachmentsIn (map inv_id (iv # ivs)) (includeAttachmentData q)) True]"
          let ?cand = "remote_candidates (iv # ivs) atts"
          have f: "fetch_attachments api q (iv # ivs)
                \<lparr>remote = s1, events = events st @ [Rpc (SearchReadInvoices q) True]\<rparr> =
              (Inr ?listed, \<lparr>remote = s2, events = ?ev\<rparr>)"
            using a atts by (simp add: fetch_attachments_def call_def returned_def)
          have k: "map inv_id (filter has_attachments (filter isZeroValueInvoice ?listed)) = ?cand"
            by (rule listed_candidates)
          note g = getAllInvoices_listed[OF c1[unfolded Cons] f k, of svc skipOcrRefresh]
          show ?thesis
          proof (cases "\<not> skipOcrRefresh \<and> ?cand \<noteq> []")
            case True
            obtain r3 s3 where v: "svc (StartRefresh ?cand) s2 = (r3, s3)"
              by (cases "svc (StartRefresh ?cand) s2")
            show ?thesis
              unfolding Pair Inr Cons a atts prod.case sum.case list.case Let_def
              using True g v
              by (cases r3) (simp_all add: start_background_eq)
          next
            case False
            show ?thesis
              unfolding Pair Inr Cons a atts prod.case sum.case list.case Let_def
              using False g by auto
          qed
        qed
      qed
    qed
  qed
next
  show "remote_candidates fetched atts' =
       map inv_id (filter (\<lambda>v. (amount_untaxed v = Absent \<or> amount_untaxed v = Null \<or>
                                  amount_untaxed v = Num 0) \<and> inv_id v \<noteq> 0 \<and>
                                 (\<exists>a \<in> set atts'. att_res_id a = Some (inv_id v))) fetched)"
    by (simp add: remote_candidates_def isZeroValueInvoice_def)
next
  have "(\<lambda>c s. (Inr (), s)) = (quiet :: 'a service)"
    by (intro ext) (simp add: quiet_def)
  then show "store_calls (events (snd (background_chain api (\<lambda>c s. (Inr (), s)) ids st'))) =
       store_calls (events st') @
         map (\<lambda>i. UpdateProgress (i + 1) (length ids)) [0 ..< length ids] @
         [CompleteRefresh (fst (refreshOcrDataForInvoices api ids st'))]"
    using chain_quiet_store[of api ids st'] by simp
next
  show "map invoiceId (results (fst (refreshOcrDataForInvoices api ids st'))) = ids"
    unfolding refresh_results by (rule refresh_loop_ids)
qed

theorem background_refresh_witness:
  "fst (getAllInvoices scenario quiet page False boot) =
     Inr \<lparr>invoices =
            [\<lparr>inv_id = 1, amount_untaxed = Num 0, attachments = Some []\<rparr>,
             \<lparr>inv_id = 2, amount_untaxed = Null, attachments = Some [pdf 20 None]\<rparr>,
             \<lparr>inv_id = 3, amount_untaxed = Absent, attachments = Some [pdf 30 None]\<rparr>,
             \<lparr>inv_id = 6, amount_untaxed = Num (25 / 2), attachments = Some [pdf 60 None]\<rparr>],
          ocrRefreshPerformed = True, zeroValueInvoicesRefreshed = 2,
          zeroValueInvoiceIds = [2, 3]\<rparr>
   \<and> take 1 (store_calls (events (snd (getAllInvoices scenario quiet page False boot)))) =
       [StartRefresh [2, 3]]
   \<and> getAllInvoices scenario quiet page True boot =
       (Inr \<lparr>invoices =
              [\<lparr>inv_id = 1, amount_untaxed = Num 0, attachments = Some []\<rparr>,
               \<lparr>inv_id = 2, amount_untaxed = Null, attachments = Some [pdf 20 None]\<rparr>,
               \<lparr>inv_id = 3, amount_untaxed = Absent, attachments = Some [pdf 30 None]\<rparr>,
               \<lparr>inv_id = 6, amount_untaxed = Num (25 / 2), attachments = Some [pdf 60 None]\<rparr>],
            ocrRefreshPerformed = False, zeroValueInvoicesRefreshed = 0,
            zeroValueInvoiceIds = []\<rparr>,
        \<lparr>remote = 200, events =
           [Rpc (SearchReadInvoices page) True,
            Rpc (SearchReadAttachmentsIn [1, 2, 3, 6] False) True]\<rparr>)"
proof -
  have c: "remote_candidates
      [\<lparr>inv_id = 1, amount_untaxed = Num 0, attachments = None\<rparr>,
       \<lparr>inv_id = 2, amount_untaxed = Null, attachments = None\<rparr>,
       \<lparr>inv_id = 3, amount_untaxed = Absent, attachments = None\<rparr>,
       \<lparr>inv_id = 6, amount_untaxed = Num (25 / 2), attachments = None\<rparr>]
      [pdf 20 (Some 2), pdf 30 (Some 3), pdf 60 (Some 6), pdf 70 None] = [2, 3]"
    by (simp add: remote_candidates_def isZeroValueInvoice_def pdf_def)
  have l: "map (with_attachments (attachmentsByInvoice False
              [pdf 20 (Some 2), pdf 30 (Some 3), pdf 60 (Some 6), pdf 70 None]))
      [\<lparr>inv_id = 1, amount_untaxed = Num 0, attachments = None\<rparr>,
       \<lparr>inv_id = 2, amount_untaxed = Null, attachments = None\<rparr>,
       \<lparr>inv_id = 3, amount_untaxed = Absent, attachments = None\<rparr>,
       \<lparr>inv_id = 6, amount_untaxed = Num (25 / 2), attachments = None\<rparr>] =
      [\<lparr>inv_id = 1, amount_untaxed = Num 0, attachments = Some []\<rparr>,
       \<lparr>inv_id = 2, amount_untaxed = Null, attachments = Some [pdf 20 None]\<rparr>,
       \<lparr>inv_id = 3, amount_untaxed = Absent, attachments = Some [pdf 30 None]\<rparr>,
       \<lparr>inv_id = 6, amount_untaxed = Num (25 / 2), attachments = Some [pdf 60 None]\<rparr>]"
    by (simp add: attachmentsByInvoice_def group_step_def pushed_def with_attachments_def pdf_def)
  have g: "getAllInvoices scenario quiet page False boot =
     (Inr \<lparr>invoices =
            [\<lparr>inv_id = 1, amount_untaxed = Num 0, attachments = Some []\<rparr>,
             \<lparr>inv_id = 2, amount_untaxed = Null, attachments = Some [pdf 20 None]\<rparr>,
             \<lparr>inv_id = 3, amount_untaxed = Absent, attachments = Some [pdf 30 None]\<rparr>,
             \<lparr>inv_id = 6, amount_untaxed = Num (25 / 2), attachments = Some [pdf 60 None]\<rparr>],
          ocrRefreshPerformed = True, zeroValueInvoicesRefreshed = 2,
          zeroValueInvoiceIds = [2, 3]\<rparr>,
      snd (background_chain scenario quiet [2, 3]
             \<lparr>remote = 200, events =
                [Rpc (SearchReadInvoices page) True,
                 Rpc (SearchReadAttachmentsIn [1, 2, 3, 6] False) True,
                 Store (StartRefresh [2, 3])]\<rparr>))"
    using background_refresh_started_iff_candidates
            [where api = scenario and svc = quiet and q = page and skipOcrRefresh = False
               and st = boot, THEN conjunct1]
    by (simp add: scenario_def boot_def page_def c l[simplified] quiet_def Let_def)
  have s: "store_calls (events (snd (background_chain scenario quiet [2, 3]
             \<lparr>remote = 200, events =
                [Rpc (SearchReadInvoices page) True,
                 Rpc (SearchReadAttachmentsIn [1, 2, 3, 6] False) True,
                 Store (StartRefresh [2, 3])]\<rparr>))) =
      StartRefresh [2, 3] #
        map (\<lambda>i. UpdateProgress (i + 1) (length [2, 3 :: int])) [0 ..< length [2, 3 :: int]] @
        [CompleteRefresh (fst (refreshOcrDataForInvoices scenario [2, 3]
             \<lparr>remote = 200, events =
                [Rpc (SearchReadInvoices page) True,
                 Rpc (SearchReadAttachmentsIn [1, 2, 3, 6] False) True,
                 Store (StartRefresh [2, 3])]\<rparr>))]"
    by (simp add: chain_quiet_store)
  have k: "getAllInvoices scenario quiet page True boot =
       (Inr \<lparr>invoices =
              [\<lparr>inv_id = 1, amount_untaxed = Num 0, attachments = Some []\<rparr>,
               \<lparr>inv_id = 2, amount_untaxed = Null, attachments = Some [pdf 20 None]\<rparr>,
               \<lparr>inv_id = 3, amount_untaxed = Absent, attachments = Some [pdf 30 None]\<rparr>,
               \<lparr>inv_id = 6, amount_untaxed = Num (25 / 2), attachments = Some [pdf 60 None]\<rparr>],
            ocrRefreshPerformed = False, zeroValueInvoicesRefreshed = 0,
            zeroValueInvoiceIds = []\<rparr>,
        \<lparr>remote = 200, events =
           [Rpc (SearchReadInvoices page) True,
            Rpc (SearchReadAttachmentsIn [1, 2, 3, 6] False) True]\<rparr>)"
    using background_refresh_started_iff_candidates
            [where api = scenario and svc = quiet and q = page and skipOcrRefresh = True
               and st = boot, THEN conjunct1]
    by (simp add: scenario_def boot_def page_def c l[simplified] Let_def)
  have t: "take 1 (store_calls (events (snd (getAllInvoices scenario quiet page False boot)))) =
       [StartRefresh [2, 3]]"
    unfolding g using s by simp
  show ?thesis using g k t by simp
qed

end
